theory Spec2Isabelle
  imports Complex_Main
begin

section \<open>Data model of the ETL pipeline\<close>

text \<open>
  Exceptions are values. \<open>TypeError\<close> is the only exception the transformer itself can
  raise on well-typed rows; \<open>OtherError\<close> stands for whatever a collaborator (extractor,
  loader) raises into the orchestrator.
\<close>

datatype py_error = TypeError | OtherError string

text \<open>
  One cell of the \<open>value\<close> column. The caller may pass \<open>None\<close>, a float NaN or a number.
  Numbers are modelled as reals: the code only compares them with \<open>0\<close> and \<open>1\<close>, and these
  comparisons are exact on floats (the spec keeps live values finite).
\<close>

datatype cell_value = PyNone | NaN | Num real

text \<open>
  A label dict is the list of its items in insertion order; a well-formed dict has
  distinct keys. Label values are strings (extractor.py:150 copies them from the
  Prometheus response), so \<open>str(value)\<close> is the value itself.
\<close>

type_synonym label_map = "(string \<times> string) list"

text \<open>
  A raw sample is one dict of the list handed to \<open>transform\<close>, with the four keys the
  extractor writes (extractor.py:147-152). A timestamp is seconds since the epoch, or
  \<open>None\<close>. \<open>labels\<close> is a dict or \<open>None\<close> (transformer.py:183 expects a falsy value there).
\<close>

record raw_sample =
  timestamp :: "int option"
  metric_name :: string
  labels :: "label_map option"
  sample_value :: cell_value

record storage_point =
  measurement :: string
  tags :: "string \<rightharpoonup> string"
  point_fields :: "string \<rightharpoonup> cell_value"
  point_timestamp :: "int option"

text \<open>
  \<open>cleaning_config\<close> is the dict under \<open>transform.data_cleaning\<close>; every option is read
  with \<open>.get(key, True)\<close>, so a missing key counts as enabled.
\<close>

record cleaning_config =
  remove_nulls :: "bool option"
  validate_timestamps :: "bool option"
  remove_duplicates :: "bool option"
  validate_value_ranges_opt :: "bool option"

definition cfg_get :: "bool option \<Rightarrow> bool" where
  "cfg_get opt = (case opt of None \<Rightarrow> True | Some b \<Rightarrow> b)"

record transformer =
  valid_metrics :: "string set"
  cleaning :: cleaning_config

section \<open>DataTransformer.__init__ (transformer.py:22-50)\<close>

definition rate_query :: string where
  "rate_query = ''rate(http_requests_total[5m])''"

definition quantile_query :: string where
  "quantile_query =
     ''histogram_quantile(0.95, rate(http_request_duration_seconds_bucket[5m]))''"

definition error_rate_query :: string where
  "error_rate_query = ''rate(http_requests_total{status=~\"5..\"}[5m])''"

definition default_valid_metrics :: "string list" where
  "default_valid_metrics =
     [''up'', ''http_requests_total'', ''http_request_duration_seconds_bucket'',
      rate_query, quantile_query, error_rate_query]"

definition default_cleaning :: cleaning_config where
  "default_cleaning =
     \<lparr>remove_nulls = Some True, validate_timestamps = Some True,
      remove_duplicates = Some True, validate_value_ranges_opt = Some True\<rparr>"

text \<open>
  The configured metric names arrive as a list and are stored as a Python set; only
  membership is ever asked of it.
\<close>

definition DataTransformer :: "string list option \<Rightarrow> cleaning_config option \<Rightarrow> transformer" where
  "DataTransformer metrics_cfg cleaning_cfg =
     \<lparr>valid_metrics = set (case metrics_cfg of None \<Rightarrow> default_valid_metrics | Some ms \<Rightarrow> ms),
      cleaning = (case cleaning_cfg of None \<Rightarrow> default_cleaning | Some c \<Rightarrow> c)\<rparr>"

section \<open>The data frame\<close>

text \<open>
  \<open>pd.DataFrame(raw_data)\<close> (transformer.py:70) makes one row per dict. The \<open>value\<close>
  column becomes a float column, in which \<open>None\<close> is stored as NaN, unless every value of
  the batch is \<open>None\<close>: then it stays a column of Python objects holding \<open>None\<close>.
\<close>

definition DataFrame :: "raw_sample list \<Rightarrow> raw_sample list" where
  "DataFrame raw =
     (if list_all (\<lambda>r. sample_value r = PyNone) raw then raw
      else map (\<lambda>r. if sample_value r = PyNone then r\<lparr>sample_value := NaN\<rparr> else r) raw)"

definition isna :: "cell_value \<Rightarrow> bool" where
  "isna v = (v = PyNone \<or> v = NaN)"

text \<open>\<open>df.dropna(subset=['value'])\<close>, \<open>df[df['timestamp'].notna()]\<close> and
  \<open>df[df['metric_name'].isin(self.valid_metrics)]\<close> (transformer.py:103-111).\<close>

definition dropna_value :: "raw_sample list \<Rightarrow> raw_sample list" where
  "dropna_value df = filter (\<lambda>r. \<not> isna (sample_value r)) df"

definition notna_timestamp :: "raw_sample list \<Rightarrow> raw_sample list" where
  "notna_timestamp df = filter (\<lambda>r. timestamp r \<noteq> None) df"

definition isin_valid_metrics :: "string set \<Rightarrow> raw_sample list \<Rightarrow> raw_sample list" where
  "isin_valid_metrics ms df = filter (\<lambda>r. metric_name r \<in> ms) df"

text \<open>
  \<open>df.drop_duplicates(subset=['timestamp', 'metric_name', 'labels'])\<close>
  (transformer.py:116). An empty frame is returned as it is. Otherwise pandas numbers
  the distinct values of each key column (\<open>DataFrame.duplicated\<close> factorizes the columns
  through a hash table, which calls \<open>hash\<close> on every cell), and a Python dict is not
  hashable: a frame with a dict in the \<open>labels\<close> column, be it in a single row, makes
  the call raise \<open>TypeError: unhashable type: 'dict'\<close>. When every \<open>labels\<close> cell is
  \<open>None\<close> the call succeeds and keeps, for each key, the first row that has it
  (\<open>keep='first'\<close>); missing timestamps and missing labels count as equal to each other.
\<close>

type_synonym dedup_key = "int option \<times> string \<times> label_map option"

definition key_of :: "raw_sample \<Rightarrow> dedup_key" where
  "key_of r = (timestamp r, metric_name r, labels r)"

fun keep_first :: "dedup_key list \<Rightarrow> raw_sample list \<Rightarrow> raw_sample list" where
  "keep_first seen [] = []"
| "keep_first seen (r # rs) =
     (if key_of r \<in> set seen then keep_first seen rs
      else r # keep_first (key_of r # seen) rs)"

definition drop_duplicates :: "raw_sample list \<Rightarrow> py_error + raw_sample list" where
  "drop_duplicates df =
     (if df = [] then Inr []
      else if list_ex (\<lambda>r. labels r \<noteq> None) df then Inl TypeError
      else Inr (keep_first [] df))"

section \<open>_validate_value_ranges (transformer.py:132-166)\<close>

text \<open>
  The two validators. \<open>x in [0, 1]\<close> compares by equality and is false on NaN and on
  \<open>None\<close>. \<open>x >= 0\<close> is false on NaN and raises \<open>TypeError\<close> on \<open>None\<close>.
\<close>

definition in_0_1 :: "cell_value \<Rightarrow> py_error + bool" where
  "in_0_1 x = (case x of Num v \<Rightarrow> Inr (v = 0 \<or> v = 1) | _ \<Rightarrow> Inr False)"

definition ge_0 :: "cell_value \<Rightarrow> py_error + bool" where
  "ge_0 x = (case x of Num v \<Rightarrow> Inr (0 \<le> v) | NaN \<Rightarrow> Inr False | PyNone \<Rightarrow> Inl TypeError)"

definition validation_rules :: "(string \<times> (cell_value \<Rightarrow> py_error + bool)) list" where
  "validation_rules =
     [(''up'', in_0_1), (rate_query, ge_0), (quantile_query, ge_0), (error_rate_query, ge_0)]"

text \<open>
  One turn of the loop over the rules (transformer.py:157-160): the validator is applied,
  in row order, to the value of every row of the rule's metric (\<open>df[mask]['value'].apply\<close>),
  and the rows of that metric it rejects are removed (\<open>df[~(mask & ~valid_mask)]\<close>); rows
  of other metrics stay. An exception of the validator leaves the loop and the function.
  The frame always has the columns \<open>metric_name\<close> and \<open>value\<close>, so the early return of
  transformer.py:142-143 is never taken.
\<close>

fun apply_rule :: "string \<Rightarrow> (cell_value \<Rightarrow> py_error + bool) \<Rightarrow> raw_sample list
    \<Rightarrow> py_error + raw_sample list" where
  "apply_rule m validator [] = Inr []"
| "apply_rule m validator (r # rs) =
     (if metric_name r = m then
        (case validator (sample_value r) of
           Inl e \<Rightarrow> Inl e
         | Inr ok \<Rightarrow>
             (case apply_rule m validator rs of
                Inl e \<Rightarrow> Inl e
              | Inr rs' \<Rightarrow> Inr (if ok then r # rs' else rs')))
      else
        (case apply_rule m validator rs of
           Inl e \<Rightarrow> Inl e
         | Inr rs' \<Rightarrow> Inr (r # rs')))"

fun apply_rules :: "(string \<times> (cell_value \<Rightarrow> py_error + bool)) list \<Rightarrow> raw_sample list
    \<Rightarrow> py_error + raw_sample list" where
  "apply_rules [] df = Inr df"
| "apply_rules ((m, validator) # rules) df =
     (case apply_rule m validator df of
        Inl e \<Rightarrow> Inl e
      | Inr df' \<Rightarrow> apply_rules rules df')"

definition validate_value_ranges :: "raw_sample list \<Rightarrow> py_error + raw_sample list" where
  "validate_value_ranges df = apply_rules validation_rules df"

section \<open>_clean_data (transformer.py:89-130)\<close>

text \<open>
  The steps in the order of the source. Every row dict carries the key \<open>metric_name\<close>, so
  the tests \<open>'metric_name' in df.columns\<close> (transformer.py:110, 115) hold and deduplication
  is by timestamp, metric name and labels.
\<close>

definition clean_data :: "transformer \<Rightarrow> raw_sample list \<Rightarrow> py_error + raw_sample list" where
  "clean_data self df =
     (let df1 = (if cfg_get (remove_nulls (cleaning self)) then dropna_value df else df);
          df2 = (if cfg_get (validate_timestamps (cleaning self)) then notna_timestamp df1 else df1);
          df3 = isin_valid_metrics (valid_metrics self) df2
      in case (if cfg_get (remove_duplicates (cleaning self)) then drop_duplicates df3 else Inr df3) of
           Inl e \<Rightarrow> Inl e
         | Inr df4 \<Rightarrow>
             (if cfg_get (validate_value_ranges_opt (cleaning self))
              then validate_value_ranges df4 else Inr df4))"

section \<open>_to_influxdb_format (transformer.py:168-213)\<close>

definition dict_get :: "label_map \<Rightarrow> string \<Rightarrow> string \<Rightarrow> string" where
  "dict_get d k dflt = (case map_of d k of None \<Rightarrow> dflt | Some v \<Rightarrow> v)"

text \<open>The loop over \<open>labels.items()\<close> (transformer.py:203-205).\<close>

fun add_label_tags :: "label_map \<Rightarrow> (string \<rightharpoonup> string) \<Rightarrow> (string \<rightharpoonup> string)" where
  "add_label_tags [] tgs = tgs"
| "add_label_tags ((k, v) # kvs) tgs =
     add_label_tags kvs
       (if k \<noteq> ''job'' \<and> k \<noteq> ''instance'' \<and> length v < 100 then tgs(k \<mapsto> v) else tgs)"

text \<open>
  The body of the per-row \<open>try\<close> (transformer.py:182-207). \<open>labels or {}\<close> turns \<open>None\<close>
  into the empty dict. On rows of this type no statement of the body raises, so the
  result is always \<open>Inr\<close>; the \<open>except\<close> branch of the loop is modelled all the same.
\<close>

definition convert_row :: "raw_sample \<Rightarrow> py_error + storage_point" where
  "convert_row row =
     (let lbls = (case labels row of None \<Rightarrow> [] | Some d \<Rightarrow> d);
          service = dict_get lbls ''job'' ''unknown'';
          instance = dict_get lbls ''instance'' ''unknown''
      in Inr \<lparr>measurement = ''health_metrics'',
              tags = add_label_tags lbls
                       [''service'' \<mapsto> service, ''instance'' \<mapsto> instance,
                        ''metric_type'' \<mapsto> metric_name row],
              point_fields = [''value'' \<mapsto> sample_value row],
              point_timestamp = timestamp row\<rparr>)"

fun to_influxdb_format :: "raw_sample list \<Rightarrow> storage_point list" where
  "to_influxdb_format [] = []"
| "to_influxdb_format (row # rows) =
     (case convert_row row of
        Inl e \<Rightarrow> to_influxdb_format rows
      | Inr point \<Rightarrow> point # to_influxdb_format rows)"

section \<open>transform (transformer.py:52-87)\<close>

text \<open>\<open>transform_try\<close> is the body of the \<open>try\<close> block, \<open>transform\<close> the whole method with
  the test for an empty input before the block and the \<open>except Exception\<close> handler
  after it. The method returns a list on every path; the result type keeps the
  alternative of a raised exception so that this is a statement and not a convention.\<close>

definition transform_try :: "transformer \<Rightarrow> raw_sample list \<Rightarrow> py_error + storage_point list" where
  "transform_try self raw_data =
     (case clean_data self (DataFrame raw_data) of
        Inl e \<Rightarrow> Inl e
      | Inr df \<Rightarrow> (if df = [] then Inr [] else Inr (to_influxdb_format df)))"

definition transform :: "transformer \<Rightarrow> raw_sample list \<Rightarrow> py_error + storage_point list" where
  "transform self raw_data =
     (if raw_data = [] then Inr []
      else (case transform_try self raw_data of
              Inl e \<Rightarrow> Inr []
            | Inr points \<Rightarrow> Inr points))"

section \<open>The orchestrator's statistics (pipeline.py:49-55)\<close>

record pipeline_stats =
  cycles_completed :: nat
  cycles_failed :: nat
  total_data_points :: nat
  last_run_time :: "int option"
  start_time :: "int option"

definition initial_stats :: pipeline_stats where
  "initial_stats =
     \<lparr>cycles_completed = 0, cycles_failed = 0, total_data_points = 0,
      last_run_time = None, start_time = None\<rparr>"

section \<open>run_single_cycle (pipeline.py:213-268)\<close>

text \<open>
  One cycle returns its result, the statistics it leaves behind, and the batches it
  handed to \<open>loader.load_data\<close>, in order. The extractor enters as the outcome of
  \<open>get_basic_metrics()\<close> in this cycle, the loader as the outcome of \<open>load_data\<close> on a
  batch; either may raise.
\<close>

record cycle_outcome =
  succeeded :: bool
  stats_after :: pipeline_stats
  load_calls :: "storage_point list list"

definition cycle_empty :: "int \<Rightarrow> pipeline_stats \<Rightarrow> storage_point list list \<Rightarrow> cycle_outcome" where
  "cycle_empty cycle_start_time stats calls =
     \<lparr>succeeded = True,
      stats_after = stats\<lparr>cycles_completed := cycles_completed stats + 1,
                             last_run_time := Some cycle_start_time\<rparr>,
      load_calls = calls\<rparr>"

definition cycle_failed :: "pipeline_stats \<Rightarrow> storage_point list list \<Rightarrow> cycle_outcome" where
  "cycle_failed stats calls =
     \<lparr>succeeded = False,
      stats_after = stats\<lparr>cycles_failed := cycles_failed stats + 1\<rparr>,
      load_calls = calls\<rparr>"

definition run_single_cycle ::
  "int \<Rightarrow> py_error + raw_sample list \<Rightarrow> transformer
     \<Rightarrow> (storage_point list \<Rightarrow> py_error + bool) \<Rightarrow> pipeline_stats \<Rightarrow> cycle_outcome" where
  "run_single_cycle cycle_start_time get_basic_metrics self_transformer load_data stats =
     (case get_basic_metrics of
        Inl e \<Rightarrow> cycle_failed stats []
      | Inr raw_data \<Rightarrow>
          if raw_data = [] then cycle_empty cycle_start_time stats []
          else
            (case transform self_transformer raw_data of
               Inl e \<Rightarrow> cycle_failed stats []
             | Inr transformed_data \<Rightarrow>
                 if transformed_data = [] then cycle_empty cycle_start_time stats []
                 else
                   (case load_data transformed_data of
                      Inl e \<Rightarrow> cycle_failed stats [transformed_data]
                    | Inr success \<Rightarrow>
                        if success then
                          \<lparr>succeeded = True,
                           stats_after =
                             stats\<lparr>cycles_completed := cycles_completed stats + 1,
                                    total_data_points :=
                                      total_data_points stats + length transformed_data,
                                    last_run_time := Some cycle_start_time\<rparr>,
                           load_calls = [transformed_data]\<rparr>
                        else cycle_failed stats [transformed_data])))"

section \<open>Floating-point division and multiplication\<close>

text \<open>
  Python computes \<open>cycles_completed / total_cycles * 100\<close> (pipeline.py:363) in IEEE 754
  binary64: the quotient of the two integers is rounded to the nearest double, ties to
  even, and so is its product with \<open>100\<close>. A double is a real number here, and
  \<open>binary64\<close> is the rounding: a value in the binade \<open>[2^e, 2^(e+1))\<close> is rounded to a
  multiple of \<open>2^(e-52)\<close>. Below \<open>2^(-1022)\<close> the exponent stays at \<open>-1022\<close>, which is the
  spacing of the subnormal numbers; overflow to infinity is not modelled (the values
  rounded here do not exceed \<open>100\<close>).
\<close>

definition round_half_even :: "real \<Rightarrow> int" where
  "round_half_even x =
     (let f = \<lfloor>x\<rfloor>; d = x - of_int f
      in if d < 1 / 2 then f else if 1 / 2 < d then f + 1 else if even f then f else f + 1)"

text \<open>The exponent, found by doubling a value below \<open>1\<close> or halving a value from \<open>2\<close> on,
  at most 1022 and 1023 times.\<close>

fun scale_up :: "nat \<Rightarrow> real \<Rightarrow> int" where
  "scale_up 0 x = 0"
| "scale_up (Suc n) x = (if x < 1 then scale_up n (2 * x) - 1 else 0)"

fun scale_down :: "nat \<Rightarrow> real \<Rightarrow> int" where
  "scale_down 0 x = 0"
| "scale_down (Suc n) x = (if 2 \<le> x then scale_down n (x / 2) + 1 else 0)"

definition exponent :: "real \<Rightarrow> int" where
  "exponent x = (if x < 1 then scale_up 1022 x else scale_down 1023 x)"

definition binary64 :: "real \<Rightarrow> real" where
  "binary64 x =
     (let u = power_int 2 (exponent \<bar>x\<bar> - 52)
      in sgn x * of_int (round_half_even (\<bar>x\<bar> / u)) * u)"

section \<open>get_statistics and get_health_status (pipeline.py:355-404)\<close>

text \<open>
  The success rate is \<open>cycles_completed / total_cycles * 100\<close>, with both operations
  rounded as the source rounds them.
\<close>

record statistics =
  total_cycles :: nat
  successful_cycles :: nat
  failed_cycles :: nat
  success_rate :: real
  stat_total_data_points :: nat
  stat_last_run_time :: "int option"
  stat_start_time :: "int option"
  is_running :: bool

definition get_statistics :: "bool \<Rightarrow> pipeline_stats \<Rightarrow> statistics" where
  "get_statistics running stats =
     (let total = cycles_completed stats + cycles_failed stats
      in \<lparr>total_cycles = total,
          successful_cycles = cycles_completed stats,
          failed_cycles = cycles_failed stats,
          success_rate =
            (if total > 0
             then binary64 (binary64 (real (cycles_completed stats) / real total) * 100)
             else 0),
          stat_total_data_points = total_data_points stats,
          stat_last_run_time = last_run_time stats,
          stat_start_time = start_time stats,
          is_running = running\<rparr>)"

text \<open>The \<open>monitoring\<close> section of the configuration; both keys are optional.\<close>

record monitoring_config =
  enable_metrics :: "bool option"
  health_check_interval :: "int option"

text \<open>The dict \<open>get_health_status\<close> returns: \<open>status\<close> alone when monitoring is disabled,
  the full report otherwise.\<close>

record health_details =
  uptime_seconds :: int
  health_statistics :: statistics
  monitoring_enabled :: bool
  check_interval :: int

record health_status =
  status :: string
  details :: "health_details option"

definition get_health_status ::
  "monitoring_config \<Rightarrow> int \<Rightarrow> bool \<Rightarrow> pipeline_stats \<Rightarrow> health_status" where
  "get_health_status monitoring now running stats =
     (if \<not> cfg_get (enable_metrics monitoring) then
        \<lparr>status = ''monitoring_disabled'', details = None\<rparr>
      else
        (let st = get_statistics running stats;
             health =
               (if total_cycles st > 0 then
                  (if success_rate st < 50 then ''critical''
                   else if success_rate st < 80 then ''warning''
                   else ''healthy'')
                else ''healthy'')
         in \<lparr>status = health,
             details = Some
               \<lparr>uptime_seconds = (case start_time stats of None \<Rightarrow> 0 | Some t \<Rightarrow> now - t),
                health_statistics = st,
                monitoring_enabled = cfg_get (enable_metrics monitoring),
                check_interval =
                  (case health_check_interval monitoring of None \<Rightarrow> 60 | Some i \<Rightarrow> i)\<rparr>\<rparr>))"

section \<open>Vocabulary of the statements\<close>

text \<open>
  The frame as \<open>_clean_data\<close> has it after its first three steps (transformer.py:101-111),
  before deduplication.
\<close>

definition basic_filters :: "transformer \<Rightarrow> raw_sample list \<Rightarrow> raw_sample list" where
  "basic_filters self df =
     isin_valid_metrics (valid_metrics self)
       ((if cfg_get (validate_timestamps (cleaning self)) then notna_timestamp else id)
          ((if cfg_get (remove_nulls (cleaning self)) then dropna_value else id) df))"

text \<open>The success rate of \<open>c\<close> successful cycles out of \<open>t\<close>, as the source computes it.\<close>

definition float_rate :: "nat \<Rightarrow> nat \<Rightarrow> real" where
  "float_rate c t = binary64 (binary64 (real c / real t) * 100)"

text \<open>A row passes range validation when every rule registered for its metric accepts
  its value.\<close>

definition in_range :: "raw_sample \<Rightarrow> bool" where
  "in_range r =
     (\<forall>(m, validator)\<in>set validation_rules.
         metric_name r = m \<longrightarrow> validator (sample_value r) = Inr True)"

text \<open>The sample of the repository's own tests (tests/test_etl.py:375-380), at time \<open>t\<close>
  with value \<open>v\<close>, and the default cleaning options with deduplication switched off.\<close>

definition up_sample :: "int \<Rightarrow> real \<Rightarrow> raw_sample" where
  "up_sample t v =
     \<lparr>timestamp = Some t, metric_name = ''up'',
      labels = Some [(''job'', ''test-app''), (''instance'', ''localhost:8080'')],
      sample_value = Num v\<rparr>"

definition no_dedup :: cleaning_config where
  "no_dedup = default_cleaning\<lparr>remove_duplicates := Some False\<rparr>"

text \<open>Inputs of the examples: the test sample without its label dict, the point the
  spec expects for the test sample, a loader whose write reports failure, a row with
  one short and one long label value.\<close>

definition unlabelled_sample :: "int \<Rightarrow> real \<Rightarrow> raw_sample" where
  "unlabelled_sample t v = (up_sample t v)\<lparr>labels := None\<rparr>"

definition expected_point :: "int \<Rightarrow> storage_point" where
  "expected_point t =
     \<lparr>measurement = ''health_metrics'',
      tags = [''service'' \<mapsto> ''test-app'', ''instance'' \<mapsto> ''localhost:8080'',
              ''metric_type'' \<mapsto> ''up''],
      point_fields = [''value'' \<mapsto> Num 1],
      point_timestamp = Some t\<rparr>"

definition failing_loader :: "storage_point list \<Rightarrow> py_error + bool" where
  "failing_loader points = Inr False"





section \<open>Facts about the stages\<close>

lemmas eval_defs =
  transform_def transform_try_def clean_data_def DataTransformer_def default_cleaning_def
  default_valid_metrics_def DataFrame_def dropna_value_def isna_def notna_timestamp_def
  isin_valid_metrics_def drop_duplicates_def cfg_get_def validate_value_ranges_def
  validation_rules_def in_0_1_def ge_0_def convert_row_def dict_get_def
  rate_query_def quantile_query_def error_rate_query_def

subsection \<open>Filters and row counts\<close>

lemma length_to_influxdb_format: "length (to_influxdb_format df) \<le> length df"
  by (induction df) (auto split: sum.splits)

lemma length_convert_all: "length (to_influxdb_format df) = length df"
  by (induction df) (simp_all add: convert_row_def Let_def)

lemma length_DataFrame: "length (DataFrame raw) = length raw"
  by (simp add: DataFrame_def)

lemma apply_rule_filter:
  "apply_rule m validator df = Inr df' \<Longrightarrow>
     df' = filter (\<lambda>r. metric_name r = m \<longrightarrow> validator (sample_value r) = Inr True) df"
  by (induction df arbitrary: df') (auto split: if_splits sum.splits)

lemma apply_rules_filter:
  "apply_rules rules df = Inr df' \<Longrightarrow>
     df' = filter (\<lambda>r. \<forall>(m, validator)\<in>set rules.
                       metric_name r = m \<longrightarrow> validator (sample_value r) = Inr True) df"
proof (induction rules df arbitrary: df' rule: apply_rules.induct)
  case (1 df)
  then show ?case by simp
next
  case (2 m validator rules df)
  then obtain df1 where a: "apply_rule m validator df = Inr df1"
    and b: "apply_rules rules df1 = Inr df'"
    by (auto split: sum.splits)
  from "2.IH"[OF a b] apply_rule_filter[OF a] show ?case
    by (auto intro: filter_cong)
qed

lemma apply_rule_total:
  "\<forall>r\<in>set df. metric_name r = m \<longrightarrow> (\<exists>b. validator (sample_value r) = Inr b)
     \<Longrightarrow> \<exists>df'. apply_rule m validator df = Inr df'"
  by (induction df) auto

lemma apply_rules_total:
  "\<forall>r\<in>set df. \<forall>(m, validator)\<in>set rules.
       metric_name r = m \<longrightarrow> (\<exists>b. validator (sample_value r) = Inr b)
     \<Longrightarrow> \<exists>df'. apply_rules rules df = Inr df'"
proof (induction rules df rule: apply_rules.induct)
  case (1 df)
  then show ?case by simp
next
  case (2 m validator rules df)
  from "2.prems" have "\<forall>r\<in>set df. metric_name r = m \<longrightarrow> (\<exists>b. validator (sample_value r) = Inr b)"
    by auto
  from apply_rule_total[OF this] obtain df1 where a: "apply_rule m validator df = Inr df1" ..
  from apply_rule_filter[OF a] have "set df1 \<subseteq> set df" by auto
  with "2.prems" have "\<forall>r\<in>set df1. \<forall>(m, validator)\<in>set rules.
       metric_name r = m \<longrightarrow> (\<exists>b. validator (sample_value r) = Inr b)"
    by auto
  from "2.IH"[OF a this] a show ?case by simp
qed

subsection \<open>First occurrences\<close>

lemma keep_first_subset: "set (keep_first seen df) \<subseteq> set df"
  by (induction df arbitrary: seen) auto

lemma length_keep_first: "length (keep_first seen df) \<le> length df"
  by (induction df arbitrary: seen) (auto intro: le_SucI)

lemma keep_first_unseen: "r \<in> set (keep_first seen df) \<Longrightarrow> key_of r \<notin> set seen"
proof (induction df arbitrary: seen)
  case Nil
  then show ?case by simp
next
  case (Cons a rs)
  show ?case
  proof (cases "key_of a \<in> set seen")
    case True
    with Cons show ?thesis by simp
  next
    case False
    with Cons.prems have "r = a \<or> r \<in> set (keep_first (key_of a # seen) rs)" by simp
    then show ?thesis
    proof
      assume "r = a" with False show ?thesis by simp
    next
      assume "r \<in> set (keep_first (key_of a # seen) rs)"
      from Cons.IH[OF this] show ?thesis by simp
    qed
  qed
qed

lemma keep_first_distinct: "distinct (map key_of (keep_first seen df))"
proof (induction df arbitrary: seen)
  case Nil
  then show ?case by simp
next
  case (Cons r rs)
  have "key_of r \<notin> key_of ` set (keep_first (key_of r # seen) rs)"
  proof
    assume "key_of r \<in> key_of ` set (keep_first (key_of r # seen) rs)"
    then obtain x where x: "x \<in> set (keep_first (key_of r # seen) rs)"
      and k: "key_of r = key_of x" by blast
    from keep_first_unseen[OF x] k show False by simp
  qed
  with Cons show ?case by simp
qed

lemma keep_first_find:
  "r \<in> set (keep_first seen df) \<Longrightarrow> List.find (\<lambda>x. key_of x = key_of r) df = Some r"
proof (induction df arbitrary: seen)
  case Nil
  then show ?case by simp
next
  case (Cons a rs)
  show ?case
  proof (cases "key_of a = key_of r")
    case True
    have "r \<notin> set (keep_first (key_of a # seen) rs)"
      using keep_first_unseen[of r "key_of a # seen" rs] True by auto
    moreover have "key_of a \<in> set seen \<Longrightarrow> r \<notin> set (keep_first seen rs)"
      using keep_first_unseen[of r seen rs] True by auto
    ultimately show ?thesis using Cons.prems True
      by (auto split: if_splits)
  next
    case False
    with Cons show ?thesis by (auto split: if_splits)
  qed
qed

lemma keep_first_mem:
  "List.find (\<lambda>x. key_of x = key_of r) df = Some r \<Longrightarrow> key_of r \<notin> set seen
     \<Longrightarrow> r \<in> set (keep_first seen df)"
  by (induction df arbitrary: seen) (auto split: if_splits)

lemma drop_duplicates_keep_first:
  "drop_duplicates df = Inr df' \<Longrightarrow> df' = keep_first [] df"
  by (auto simp: drop_duplicates_def split: if_splits)

lemma length_drop_duplicates:
  "drop_duplicates df = Inr df' \<Longrightarrow> length df' \<le> length df"
  by (auto simp: drop_duplicates_def length_keep_first split: if_splits)

subsection \<open>Cleaning as a whole\<close>

lemma clean_data_stages:
  "clean_data self df =
     (case (if cfg_get (remove_duplicates (cleaning self))
            then drop_duplicates (basic_filters self df) else Inr (basic_filters self df)) of
        Inl e \<Rightarrow> Inl e
      | Inr df4 \<Rightarrow>
          (if cfg_get (validate_value_ranges_opt (cleaning self))
           then validate_value_ranges df4 else Inr df4))"
  by (simp add: clean_data_def basic_filters_def Let_def)

lemma basic_filters_filter:
  "basic_filters self df =
     filter (\<lambda>r. (cfg_get (remove_nulls (cleaning self)) \<longrightarrow> \<not> isna (sample_value r))
                \<and> (cfg_get (validate_timestamps (cleaning self)) \<longrightarrow> timestamp r \<noteq> None)
                \<and> metric_name r \<in> valid_metrics self) df"
  by (simp add: basic_filters_def isin_valid_metrics_def notna_timestamp_def dropna_value_def)

lemma length_basic_filters: "length (basic_filters self df) \<le> length df"
  by (simp add: basic_filters_filter)

lemma validate_value_ranges_filter:
  "validate_value_ranges df = Inr df' \<Longrightarrow> df' = filter in_range df"
  unfolding validate_value_ranges_def in_range_def
  by (rule apply_rules_filter)

lemma length_validate_value_ranges:
  "validate_value_ranges df = Inr df' \<Longrightarrow> length df' \<le> length df"
  by (drule validate_value_ranges_filter) simp

lemma validate_value_ranges_total:
  assumes "\<forall>r\<in>set df. sample_value r \<noteq> PyNone"
  shows "\<exists>df'. validate_value_ranges df = Inr df'"
  unfolding validate_value_ranges_def
proof (rule apply_rules_total, intro ballI)
  fix r x
  assume r: "r \<in> set df" and x: "x \<in> set validation_rules"
  from assms r have "sample_value r \<noteq> PyNone" by simp
  then have "(\<exists>b. in_0_1 (sample_value r) = Inr b) \<and> (\<exists>b. ge_0 (sample_value r) = Inr b)"
    by (cases "sample_value r") (auto simp: in_0_1_def ge_0_def)
  with x show "case x of (m, validator) \<Rightarrow>
                 metric_name r = m \<longrightarrow> (\<exists>b. validator (sample_value r) = Inr b)"
    by (auto simp: validation_rules_def)
qed

lemma in_range_iff:
  "in_range r =
     ((metric_name r = ''up'' \<longrightarrow> sample_value r = Num 0 \<or> sample_value r = Num 1)
      \<and> (metric_name r \<in> {rate_query, quantile_query, error_rate_query} \<longrightarrow>
           (\<exists>v. sample_value r = Num v \<and> 0 \<le> v)))"
proof -
  have names: "''up'' \<noteq> rate_query" "''up'' \<noteq> quantile_query" "''up'' \<noteq> error_rate_query"
    by (simp_all add: rate_query_def quantile_query_def error_rate_query_def)
  have up: "(in_0_1 (sample_value r) = Inr True)
            = (sample_value r = Num 0 \<or> sample_value r = Num 1)"
    by (cases "sample_value r") (auto simp: in_0_1_def)
  have ge: "(ge_0 (sample_value r) = Inr True) = (\<exists>v. sample_value r = Num v \<and> 0 \<le> v)"
    by (cases "sample_value r") (auto simp: ge_0_def)
  show ?thesis
    unfolding in_range_def validation_rules_def
    using names by (auto simp: up ge)
qed

lemma length_clean_data:
  assumes "clean_data self df = Inr df'"
  shows "length df' \<le> length df"
proof -
  from assms obtain df4 where
    d: "(if cfg_get (remove_duplicates (cleaning self))
         then drop_duplicates (basic_filters self df) else Inr (basic_filters self df)) = Inr df4"
    and v: "(if cfg_get (validate_value_ranges_opt (cleaning self))
             then validate_value_ranges df4 else Inr df4) = Inr df'"
    by (auto simp: clean_data_stages split: sum.splits)
  from d have "length df4 \<le> length (basic_filters self df)"
    by (auto dest: length_drop_duplicates split: if_splits)
  moreover from v have "length df' \<le> length df4"
    by (auto dest: length_validate_value_ranges split: if_splits)
  ultimately show ?thesis
    using length_basic_filters[of self df] by linarith
qed

subsection \<open>Tags\<close>


subsection \<open>Rounding to binary64\<close>

lemma round_half_even_bounds:
  "x - 1 / 2 \<le> of_int (round_half_even x) \<and> of_int (round_half_even x) \<le> x + 1 / 2"
proof -
  define f where "f = \<lfloor>x\<rfloor>"
  have f: "\<lfloor>x\<rfloor> = f" by (simp add: f_def)
  have lo: "of_int f \<le> x" and hi: "x < of_int f + 1"
    unfolding f_def by linarith+
  show ?thesis
    unfolding round_half_even_def Let_def f using lo hi by auto
qed

lemma scale_up_ge_1: "1 \<le> (x::real) \<Longrightarrow> scale_up n x = 0"
  by (cases n) simp_all

lemma scale_down_lt_2: "(x::real) < 2 \<Longrightarrow> scale_down n x = 0"
  by (cases n) simp_all

lemma scale_up_eq:
  "1 \<le> (x::real) * 2 ^ k \<Longrightarrow> x * 2 ^ k < 2 \<Longrightarrow> k \<le> n \<Longrightarrow> scale_up n x = - int k"
proof (induction k arbitrary: n x)
  case 0
  then show ?case by (simp add: scale_up_ge_1)
next
  case (Suc k)
  from Suc.prems obtain m where n: "n = Suc m" and km: "k \<le> m" by (cases n) auto
  have "(1::real) \<le> 2 ^ k" by simp
  have "x * 2 ^ k \<ge> x \<or> x \<le> 0"
    using \<open>(1::real) \<le> 2 ^ k\<close> by (metis mult.right_neutral mult_left_mono linear)
  moreover from Suc.prems(2) have "2 * (x * 2 ^ k) < 2" by (simp add: mult.assoc mult.left_commute)
  ultimately have "x < 1" by linarith
  moreover have "scale_up m (2 * x) = - int k"
    using Suc.prems(1,2) km by (intro Suc.IH) (simp_all add: mult.assoc mult.left_commute)
  ultimately show ?case by (simp add: n)
qed

lemma scale_down_eq:
  "1 \<le> (x::real) / 2 ^ k \<Longrightarrow> x / 2 ^ k < 2 \<Longrightarrow> k \<le> n \<Longrightarrow> scale_down n x = int k"
proof (induction k arbitrary: n x)
  case 0
  then show ?case by (simp add: scale_down_lt_2)
next
  case (Suc k)
  from Suc.prems obtain m where n: "n = Suc m" and km: "k \<le> m" by (cases n) auto
  have "(1::real) \<le> 2 ^ k" by simp
  from Suc.prems(1) have "2 * 2 ^ k \<le> x" by (simp add: field_simps)
  with \<open>(1::real) \<le> 2 ^ k\<close> have "2 \<le> x" by linarith
  moreover have "scale_down m (x / 2) = int k"
    using Suc.prems(1,2) km by (intro Suc.IH) (simp_all add: field_simps)
  ultimately show ?case by (simp add: n)
qed

lemma exists_up:
  "0 < (x::real) \<Longrightarrow> x < 1 \<Longrightarrow> 1 \<le> x * 2 ^ n \<Longrightarrow> \<exists>k\<le>n. 1 \<le> x * 2 ^ k \<and> x * 2 ^ k < 2"
proof (induction n arbitrary: x)
  case 0
  then show ?case by simp
next
  case (Suc n)
  show ?case
  proof (cases "2 * x < 1")
    case True
    from Suc.prems have "1 \<le> (2 * x) * 2 ^ n" by (simp add: mult.assoc mult.left_commute)
    from Suc.IH[OF _ True this] Suc.prems(1) obtain k where "k \<le> n" "1 \<le> 2 * x * 2 ^ k" "2 * x * 2 ^ k < 2"
      by auto
    then show ?thesis
      by (intro exI[of _ "Suc k"]) (simp add: mult.assoc mult.left_commute)
  next
    case False
    with Suc.prems show ?thesis
      by (intro exI[of _ 1]) simp
  qed
qed

lemma exists_down:
  "1 \<le> (x::real) \<Longrightarrow> x < 2 ^ Suc n \<Longrightarrow> \<exists>k\<le>n. 1 \<le> x / 2 ^ k \<and> x / 2 ^ k < 2"
proof (induction n arbitrary: x)
  case 0
  then show ?case by simp
next
  case (Suc n)
  show ?case
  proof (cases "x < 2")
    case True
    with Suc.prems show ?thesis by (intro exI[of _ 0]) simp
  next
    case False
    then have a: "1 \<le> x / 2" by simp
    from Suc.prems have b: "x / 2 < 2 ^ Suc n" by simp
    from Suc.IH[OF a b] obtain k where "k \<le> n" "1 \<le> x / 2 / 2 ^ k" "x / 2 / 2 ^ k < 2" by auto
    then show ?thesis
      by (intro exI[of _ "Suc k"]) (simp add: field_simps)
  qed
qed


lemma binary64_up:
  assumes "0 < x" "1 \<le> x * 2 ^ k" "x * 2 ^ k < 2" "1 \<le> k" "k \<le> 1022"
  shows "binary64 x = of_int (round_half_even (x * 2 ^ (k + 52))) / 2 ^ (k + 52)"
proof -
  have "(2::real) \<le> 2 ^ k" using assms(4) by (metis power_increasing one_le_numeral power_one_right)
  then have "x * 2 \<le> x * 2 ^ k"
    using assms(1) by (intro mult_left_mono) simp_all
  with assms(3) have "x < 1" by linarith
  then have e: "exponent \<bar>x\<bar> = - int k"
    using assms by (simp add: exponent_def scale_up_eq)
  have "- int k - 52 = - int (k + 52)" by simp
  then have u: "power_int (2::real) (exponent \<bar>x\<bar> - 52) = inverse (2 ^ (k + 52))"
    unfolding e by (simp only: power_int_minus power_int_of_nat)
  show ?thesis
    unfolding binary64_def Let_def u using assms(1) by (simp add: field_simps)
qed

lemma binary64_down:
  assumes "1 \<le> x / 2 ^ k" "x / 2 ^ k < 2" "k \<le> 1023"
  shows "binary64 x = of_int (round_half_even (x * 2 ^ 52 / 2 ^ k)) * 2 ^ k / 2 ^ 52"
proof -
  have p: "(1::real) \<le> 2 ^ k" by simp
  from assms(1) have "2 ^ k \<le> x" by (simp add: field_simps)
  with p have x: "1 \<le> x" by linarith
  then have e: "exponent \<bar>x\<bar> = int k"
    using assms by (simp add: exponent_def scale_down_eq)
  have u: "power_int (2::real) (exponent \<bar>x\<bar> - 52) = 2 ^ k / 2 ^ 52"
    unfolding e by (simp add: power_int_diff)
  show ?thesis
    unfolding binary64_def Let_def u using x by (simp add: field_simps)
qed

lemma binary64_error:
  assumes "0 < x" "1 \<le> x * 2 ^ 1022" "x < 2 ^ 1024"
  shows "\<bar>binary64 x - x\<bar> \<le> x / 2 ^ 53"
proof (cases "x < 1")
  case True
  from exists_up[OF assms(1) True assms(2)] obtain k where
    k: "k \<le> 1022" "1 \<le> x * 2 ^ k" "x * 2 ^ k < 2" by auto
  from True k(2) have "1 \<le> k" by (cases k) auto
  define M :: real where "M = 2 ^ (k + 52)"
  have M: "0 < M" by (simp add: M_def)
  have fl: "binary64 x = of_int (round_half_even (x * M)) / M"
    unfolding M_def by (rule binary64_up[OF assms(1) k(2,3) \<open>1 \<le> k\<close> k(1)])
  have "\<bar>of_int (round_half_even (x * M)) - x * M\<bar> \<le> 1 / 2"
    using round_half_even_bounds[of "x * M"] by linarith
  then have "\<bar>of_int (round_half_even (x * M)) / M - x\<bar> \<le> 1 / 2 / M"
    using M by (simp add: field_simps abs_le_iff)
  also have "1 / 2 / M \<le> x / 2 ^ 53"
  proof -
    have "1 / 2 / M = 1 / (2 ^ k * 2 ^ 53)" by (simp add: M_def power_add)
    also have "\<dots> \<le> x * 2 ^ k / (2 ^ k * 2 ^ 53)"
      using k(2) by (intro divide_right_mono) simp_all
    also have "\<dots> = x / 2 ^ 53" by simp
    finally show ?thesis .
  qed
  finally show ?thesis by (simp add: fl)
next
  case False
  then have x1: "1 \<le> x" by simp
  from assms(3) have "x < 2 ^ Suc 1023" by simp
  from exists_down[OF x1 this] obtain k where
    k: "k \<le> 1023" "1 \<le> x / 2 ^ k" "x / 2 ^ k < 2" by auto
  define U :: real where "U = 2 ^ k / 2 ^ 52"
  have U: "0 < U" by (simp add: U_def)
  have "binary64 x = of_int (round_half_even (x * 2 ^ 52 / 2 ^ k)) * 2 ^ k / 2 ^ 52"
    by (rule binary64_down[OF k(2,3,1)])
  then have fl: "binary64 x = of_int (round_half_even (x / U)) * U"
    by (simp add: U_def)
  have "\<bar>of_int (round_half_even (x / U)) - x / U\<bar> \<le> 1 / 2"
    using round_half_even_bounds[of "x / U"] by linarith
  then have "\<bar>of_int (round_half_even (x / U)) * U - x\<bar> \<le> U / 2"
    using U by (simp add: field_simps abs_le_iff)
  also have "U / 2 \<le> x / 2 ^ 53"
  proof -
    have "U / 2 = 2 ^ k / 2 ^ 53" by (simp add: U_def)
    also have "\<dots> \<le> x / 2 ^ 53"
      using k(2) by (intro divide_right_mono) (simp_all add: field_simps)
    finally show ?thesis .
  qed
  finally show ?thesis by (simp add: fl)
qed

lemma round_half_even_ge: "of_int m - 1 / 2 < z \<Longrightarrow> m \<le> round_half_even z"
proof -
  assume a: "of_int m - 1 / 2 < z"
  have "z - 1 / 2 \<le> of_int (round_half_even z)"
    using round_half_even_bounds[of z] by simp
  with a have "(of_int (m - 1) :: real) < of_int (round_half_even z)" by simp
  then have "m - 1 < round_half_even z" by (simp only: of_int_less_iff)
  then show ?thesis by simp
qed

lemma round_half_even_le: "z < of_int m + 1 / 2 \<Longrightarrow> round_half_even z \<le> m"
proof -
  assume a: "z < of_int m + 1 / 2"
  have "of_int (round_half_even z) \<le> z + 1 / 2"
    using round_half_even_bounds[of z] by simp
  with a have "(of_int (round_half_even z) :: real) < of_int (m + 1)" by simp
  then have "round_half_even z < m + 1" by (simp only: of_int_less_iff)
  then show ?thesis by simp
qed

lemma round_half_even_eq:
  "of_int m - 1 / 2 < z \<Longrightarrow> z < of_int m + 1 / 2 \<Longrightarrow> round_half_even z = m"
  using round_half_even_ge[of m z] round_half_even_le[of z m] by simp

lemma binary64_0: "binary64 0 = 0"
  by (simp add: binary64_def)

text \<open>A number of the binade \<open>[2^k, 2^(k+1))\<close> at or above a grid point rounds to at
  least that grid point.\<close>

lemma binary64_down_ge:
  assumes "1 \<le> y / 2 ^ k" "y / 2 ^ k < 2" "k \<le> 1023"
    and "of_int m \<le> y * 2 ^ 52 / 2 ^ k"
  shows "of_int m * 2 ^ k / 2 ^ 52 \<le> binary64 y"
proof -
  from assms(4) have "of_int m - 1 / 2 < y * 2 ^ 52 / 2 ^ k" by linarith
  then have "m \<le> round_half_even (y * 2 ^ 52 / 2 ^ k)" by (rule round_half_even_ge)
  then have "(of_int m :: real) \<le> of_int (round_half_even (y * 2 ^ 52 / 2 ^ k))"
    by (simp only: of_int_le_iff)
  then have "of_int m * 2 ^ k / 2 ^ 52
             \<le> of_int (round_half_even (y * 2 ^ 52 / 2 ^ k)) * 2 ^ k / (2 ^ 52 :: real)"
    by (intro divide_right_mono mult_right_mono) simp_all
  then show ?thesis
    by (simp only: binary64_down[OF assms(1,2,3)])
qed

text \<open>The quotient: for \<open>q\<close> in \<open>[1/2, 1]\<close> the rounded value stays in \<open>[1/2, 1]\<close>, and from
  \<open>4/5\<close> on it is at least the double next to \<open>4/5\<close>, which lies above \<open>4/5\<close>.\<close>

lemma binary64_half_to_one:
  assumes "1 / 2 \<le> q" "q < 1"
  shows "1 / 2 \<le> binary64 q" and "binary64 q \<le> 1"
    and "4 / 5 \<le> q \<Longrightarrow> 7205759403792794 / 2 ^ 53 \<le> binary64 q"
proof -
  have q0: "0 < q" using assms by simp
  have fl: "binary64 q = of_int (round_half_even (q * 2 ^ 53)) / 2 ^ 53"
    using binary64_up[OF q0, of 1] assms by simp
  have "of_int (4503599627370496 :: int) - 1 / 2 < q * 2 ^ 53"
    using assms(1) by simp
  then have "4503599627370496 \<le> round_half_even (q * 2 ^ 53)" by (rule round_half_even_ge)
  then have "(4503599627370496 :: real) \<le> of_int (round_half_even (q * 2 ^ 53))" by linarith
  then show "1 / 2 \<le> binary64 q" by (simp add: fl)
  have "q * 2 ^ 53 < of_int (9007199254740992 :: int) + 1 / 2"
    using assms(2) by simp
  then have "round_half_even (q * 2 ^ 53) \<le> 9007199254740992" by (rule round_half_even_le)
  then have "of_int (round_half_even (q * 2 ^ 53)) \<le> (9007199254740992 :: real)" by linarith
  then show "binary64 q \<le> 1" by (simp add: fl)
  assume "4 / 5 \<le> q"
  then have "of_int (7205759403792794 :: int) - 1 / 2 < q * 2 ^ 53" by simp
  then have "7205759403792794 \<le> round_half_even (q * 2 ^ 53)" by (rule round_half_even_ge)
  then have "(7205759403792794 :: real) \<le> of_int (round_half_even (q * 2 ^ 53))" by linarith
  then show "7205759403792794 / 2 ^ 53 \<le> binary64 q" by (simp add: fl)
qed

lemma binary64_1: "binary64 1 = 1"
proof -
  have fl: "binary64 1 = of_int (round_half_even (2 ^ 52)) / 2 ^ 52"
    using binary64_down[of 1 0] by simp
  have "of_int (4503599627370496 :: int) - 1 / 2 < (2 ^ 52 :: real)" by simp
  then have a: "4503599627370496 \<le> round_half_even (2 ^ 52)" by (rule round_half_even_ge)
  have "(2 ^ 52 :: real) < of_int (4503599627370496 :: int) + 1 / 2" by simp
  then have b: "round_half_even (2 ^ 52) \<le> 4503599627370496" by (rule round_half_even_le)
  from a b have "round_half_even (2 ^ 52) = 4503599627370496" by simp
  then show ?thesis by (simp add: fl)
qed

text \<open>At or above a threshold: the quotient is at least \<open>1/2\<close> (or \<open>4/5\<close>), and nothing is
  lost on the way up.\<close>

lemma float_rate_ge:
  fixes c t :: nat
  assumes "0 < t" "c \<le> t"
  shows "t \<le> 2 * c \<Longrightarrow> 50 \<le> float_rate c t"
    and "4 * t \<le> 5 * c \<Longrightarrow> 80 \<le> float_rate c t"
proof -
  define q where "q = real c / real t"
  have q1: "q \<le> 1" using assms by (simp add: q_def)
  have top: "50 \<le> y \<Longrightarrow> y \<le> 100 \<Longrightarrow> 50 \<le> binary64 y"
    and top80: "80 \<le> y \<Longrightarrow> y \<le> 100 \<Longrightarrow> 80 \<le> binary64 y" for y :: real
  proof -
    assume y: "50 \<le> y" "y \<le> 100"
    show "50 \<le> binary64 y"
    proof (cases "y < 64")
      case True
      have "of_int (7036874417766400 :: int) * 2 ^ 5 / 2 ^ 52 \<le> binary64 y"
        using y True by (intro binary64_down_ge) simp_all
      then show ?thesis by simp
    next
      case False
      have "of_int (4503599627370496 :: int) * 2 ^ 6 / 2 ^ 52 \<le> binary64 y"
        using y False by (intro binary64_down_ge) simp_all
      then show ?thesis by simp
    qed
  next
    assume y: "80 \<le> y" "y \<le> 100"
    have "of_int (5629499534213120 :: int) * 2 ^ 6 / 2 ^ 52 \<le> binary64 y"
      using y by (intro binary64_down_ge) simp_all
    then show "80 \<le> binary64 y" by simp
  qed
  {
    assume "t \<le> 2 * c"
    then have h: "1 / 2 \<le> q" using assms(1) by (simp add: q_def field_simps)
    have "1 / 2 \<le> binary64 q \<and> binary64 q \<le> 1"
    proof (cases "q < 1")
      case True
      with h show ?thesis using binary64_half_to_one(1,2)[of q] by simp
    next
      case False
      with q1 have "q = 1" by simp
      then show ?thesis by (simp add: binary64_1)
    qed
    then have "50 \<le> binary64 q * 100" "binary64 q * 100 \<le> 100" by simp_all
    then show "50 \<le> float_rate c t"
      unfolding float_rate_def q_def[symmetric] by (rule top)
  }
  {
    assume "4 * t \<le> 5 * c"
    then have "4 * real t \<le> 5 * real c" by (metis of_nat_le_iff of_nat_mult of_nat_numeral)
    then have h: "4 / 5 \<le> q" using assms(1) by (simp add: q_def field_simps)
    have "7205759403792794 / 2 ^ 53 \<le> binary64 q \<and> binary64 q \<le> 1"
    proof (cases "q < 1")
      case True
      with h show ?thesis using binary64_half_to_one(2,3)[of q] by simp
    next
      case False
      with q1 have "q = 1" by simp
      then show ?thesis by (simp add: binary64_1)
    qed
    then have "80 \<le> binary64 q * 100" "binary64 q * 100 \<le> 100" by simp_all
    then show "80 \<le> float_rate c t"
      unfolding float_rate_def q_def[symmetric] by (rule top80)
  }
qed

lemma float_rate_upper:
  fixes c t :: nat
  assumes "0 < t" "t \<le> 10 ^ 15" "c < t"
  shows "float_rate c t \<le> 100 * (real c / real t) * ((1 + 1 / 2 ^ 53) * (1 + 1 / 2 ^ 53))"
proof (cases "c = 0")
  case True
  then show ?thesis by (simp add: float_rate_def binary64_0)
next
  case False
  define q where "q = real c / real t"
  have tpos: "0 < real t" using assms(1) by simp
  have "1 \<le> real c" using False by simp
  then have "1 / real t \<le> q" unfolding q_def using tpos by (intro divide_right_mono) simp_all
  moreover have "1 / (10 ^ 15 :: real) \<le> 1 / real t"
  proof -
    have "real t \<le> real (10 ^ 15)" using assms(2) by (simp only: of_nat_le_iff)
    then have "real t \<le> 10 ^ 15" by simp
    then show ?thesis using tpos by (intro divide_left_mono) simp_all
  qed
  ultimately have qlo: "1 / 10 ^ 15 \<le> q" by linarith
  moreover have "(0::real) < 1 / 10 ^ 15" by simp
  ultimately have q0: "0 < q" by linarith
  have q1: "q < 1" unfolding q_def using assms(3) tpos by simp
  have big: "(10 ^ 15 :: real) \<le> 2 ^ 1022" by simp
  have scale: "1 \<le> x * 2 ^ 1022" if "1 / 10 ^ 15 \<le> x" for x :: real
  proof -
    have "(0::real) \<le> 1 / 10 ^ 15" by simp
    with that have x0: "0 \<le> x" by linarith
    have "1 = 1 / 10 ^ 15 * (10 ^ 15 :: real)" by simp
    also have "\<dots> \<le> x * 10 ^ 15" using that by (intro mult_right_mono) simp_all
    also have "\<dots> \<le> x * 2 ^ 1022"
      using big x0 by (rule mult_left_mono)
    finally show ?thesis .
  qed
  have e1: "\<bar>binary64 q - q\<bar> \<le> q / 2 ^ 53"
    using q0 scale[OF qlo] q1 by (intro binary64_error) simp_all
  define y where "y = binary64 q * 100"
  from e1 have fq: "q - q / 2 ^ 53 \<le> binary64 q" "binary64 q \<le> q + q / 2 ^ 53"
    by linarith+
  have ylo: "q \<le> y" using fq(1) q0 unfolding y_def by simp
  have yhi: "y \<le> 100 * q * (1 + 1 / 2 ^ 53)" using fq(2) unfolding y_def by (simp add: algebra_simps)
  have y0: "0 < y" using ylo q0 by linarith
  have "y < 200" using yhi q1 q0 by simp
  then have ybig: "y < 2 ^ 1024" by simp
  have e2: "\<bar>binary64 y - y\<bar> \<le> y / 2 ^ 53"
    using y0 ybig scale[of y] qlo ylo by (intro binary64_error) simp_all
  then have "binary64 y \<le> y + y / 2 ^ 53" by linarith
  also have "\<dots> = y * (1 + 1 / 2 ^ 53)" by (simp add: algebra_simps)
  also have "\<dots> \<le> 100 * q * (1 + 1 / 2 ^ 53) * (1 + 1 / 2 ^ 53)"
    using yhi by (intro mult_right_mono) simp_all
  finally show ?thesis
    unfolding float_rate_def y_def q_def by (simp add: mult.assoc)
qed

lemma float_rate_lt:
  fixes c t :: nat
  assumes "0 < t" "t \<le> 10 ^ 15"
  shows "2 * c < t \<Longrightarrow> float_rate c t < 50"
    and "5 * c < 4 * t \<Longrightarrow> float_rate c t < 80"
proof -
  define q where "q = real c / real t"
  define E :: real where "E = (1 + 1 / 2 ^ 53) * (1 + 1 / 2 ^ 53)"
  have tpos: "0 < real t" using assms(1) by simp
  have E0: "0 \<le> E" by (simp add: E_def)
  have inv: "1 / (10 ^ 15 :: real) \<le> 1 / real t"
  proof -
    have "real t \<le> real (10 ^ 15)" using assms(2) by (simp only: of_nat_le_iff)
    then have "real t \<le> 10 ^ 15" by simp
    then show ?thesis using tpos by (intro divide_left_mono) simp_all
  qed
  have ct: "real c = q * real t" using tpos by (simp add: q_def)
  {
    assume a: "2 * c < t"
    then have "c < t" by simp
    from float_rate_upper[OF assms this] have u: "float_rate c t \<le> 100 * q * E"
      by (simp add: q_def E_def)
    from a have "2 * c + 1 \<le> t" by simp
    then have "real (2 * c + 1) \<le> real t" by (simp only: of_nat_le_iff)
    then have "2 * (q * real t) + 1 \<le> real t" by (simp add: ct)
    then have "(2 * q + 1 / real t) * real t \<le> 1 * real t"
      using tpos by (simp add: algebra_simps)
    then have "2 * q + 1 / real t \<le> 1" using tpos by (simp only: mult_le_cancel_right_pos)
    with inv have "100 * q \<le> 50 - 50 / 10 ^ 15" by simp
    then have "100 * q * E \<le> (50 - 50 / 10 ^ 15) * E" using E0 by (rule mult_right_mono)
    also have "\<dots> < 50" by (simp add: E_def)
    finally show "float_rate c t < 50" using u by linarith
  }
  {
    assume a: "5 * c < 4 * t"
    then have "c < t" by simp
    from float_rate_upper[OF assms this] have u: "float_rate c t \<le> 100 * q * E"
      by (simp add: q_def E_def)
    from a have "5 * c + 1 \<le> 4 * t" by simp
    then have "real (5 * c + 1) \<le> real (4 * t)" by (simp only: of_nat_le_iff)
    then have "5 * (q * real t) + 1 \<le> 4 * real t" by (simp add: ct)
    then have "(5 * q + 1 / real t) * real t \<le> 4 * real t"
      using tpos by (simp add: algebra_simps)
    then have "5 * q + 1 / real t \<le> 4" using tpos by (simp only: mult_le_cancel_right_pos)
    with inv have "100 * q \<le> 80 - 20 / 10 ^ 15" by simp
    then have "100 * q * E \<le> (80 - 20 / 10 ^ 15) * E" using E0 by (rule mult_right_mono)
    also have "\<dots> < 80" by (simp add: E_def)
    finally show "float_rate c t < 80" using u by linarith
  }
qed

lemma total_cycles_get_statistics:
  "total_cycles (get_statistics running stats) = cycles_completed stats + cycles_failed stats"
  by (simp add: get_statistics_def Let_def)

lemma success_rate_float:
  "0 < cycles_completed stats + cycles_failed stats \<Longrightarrow>
     success_rate (get_statistics running stats)
       = float_rate (cycles_completed stats) (cycles_completed stats + cycles_failed stats)"
  by (simp add: get_statistics_def Let_def float_rate_def)

section \<open>The claims\<close>

text \<open>
  C1. Two samples identical on \<open>(timestamp, metric_name, labels)\<close> and different in value
  should leave exactly one StoragePoint, the first. Run on the code with its default
  configuration (\<open>remove_duplicates\<close> enabled), two valid \<open>up\<close> samples of the same second
  with the same label dict, values \<open>1\<close> and \<open>0\<close>, leave none: \<open>drop_duplicates\<close> raises on
  the label dict, \<open>_clean_data\<close> ends with that \<open>TypeError\<close>, and \<open>transform\<close> answers it
  with the empty list.
\<close>

theorem duplicate_pair_default_config:
  "clean_data (DataTransformer None None) (DataFrame [up_sample t 1, up_sample t 0])
     = Inl TypeError
   \<and> transform (DataTransformer None None) [up_sample t 1, up_sample t 0] = Inr []"
  by (simp add: eval_defs up_sample_def)

text \<open>
  C2. For every input sequence \<open>transform\<close> returns normally, with at most as many points
  as there are input samples, and the empty input gives the empty output.
\<close>

theorem transform_returns_no_more_rows:
  "(\<exists>points. transform self raw_data = Inr points \<and> length points \<le> length raw_data)
   \<and> transform self [] = Inr []"
proof
  show "\<exists>points. transform self raw_data = Inr points \<and> length points \<le> length raw_data"
  proof (cases "clean_data self (DataFrame raw_data)")
    case (Inl e)
    then show ?thesis by (simp add: transform_def transform_try_def)
  next
    case (Inr df)
    from length_clean_data[OF Inr] have "length df \<le> length raw_data"
      by (simp add: length_DataFrame)
    with length_to_influxdb_format[of df]
    have "length (to_influxdb_format df) \<le> length raw_data" by linarith
    with Inr show ?thesis by (simp add: transform_def transform_try_def)
  qed
  show "transform self [] = Inr []" by (simp add: transform_def)
qed

text \<open>
  C3. One valid sample from the extractor and a loader whose write reports failure
  should give a failed cycle. Run on the code with the default transformer, the test sample
  never reaches the loader: \<open>transform\<close> returns the empty list (see C7), the cycle takes
  the branch of pipeline.py:241-245, returns success and counts a completed cycle;
  \<open>cycles_failed\<close> does not move and \<open>load_data\<close> is not called.
\<close>

theorem load_failure_default_config:
  "succeeded (run_single_cycle now (Inr [up_sample t 1]) (DataTransformer None None)
                failing_loader stats)
   \<and> cycles_failed (stats_after (run_single_cycle now (Inr [up_sample t 1])
                (DataTransformer None None) failing_loader stats)) = cycles_failed stats
   \<and> cycles_completed (stats_after (run_single_cycle now (Inr [up_sample t 1])
                (DataTransformer None None) failing_loader stats)) = cycles_completed stats + 1
   \<and> load_calls (run_single_cycle now (Inr [up_sample t 1]) (DataTransformer None None)
                failing_loader stats) = []"
  by (simp add: run_single_cycle_def cycle_empty_def eval_defs up_sample_def)

text \<open>
  The load branch itself does what the claim says: whenever the transformer hands a
  non-empty batch to the loader and the loader reports failure, the cycle fails,
  \<open>cycles_failed\<close> grows by one, \<open>total_data_points\<close> and \<open>cycles_completed\<close> stay, and
  the loader has been called once. With deduplication switched off the test sample
  gets there.
\<close>

lemma load_failure_branch:
  assumes "transform self [s] = Inr points" and "points \<noteq> []"
    and "load_data points = Inr False"
  shows "\<not> succeeded (run_single_cycle now (Inr [s]) self load_data stats)
   \<and> cycles_failed (stats_after (run_single_cycle now (Inr [s]) self load_data stats))
       = cycles_failed stats + 1
   \<and> total_data_points (stats_after (run_single_cycle now (Inr [s]) self load_data stats))
       = total_data_points stats
   \<and> cycles_completed (stats_after (run_single_cycle now (Inr [s]) self load_data stats))
       = cycles_completed stats
   \<and> load_calls (run_single_cycle now (Inr [s]) self load_data stats) = [points]"
  using assms by (simp add: run_single_cycle_def cycle_failed_def)

lemma load_failure_branch_without_dedup:
  "transform (DataTransformer None (Some no_dedup)) [up_sample 7 1] = Inr [expected_point 7]
   \<and> [expected_point 7] \<noteq> []
   \<and> failing_loader [expected_point 7] = Inr False
   \<and> \<not> succeeded (run_single_cycle 7 (Inr [up_sample 7 1])
                      (DataTransformer None (Some no_dedup)) failing_loader initial_stats)
   \<and> cycles_failed (stats_after (run_single_cycle 7 (Inr [up_sample 7 1])
                      (DataTransformer None (Some no_dedup)) failing_loader initial_stats)) = 1
   \<and> total_data_points (stats_after (run_single_cycle 7 (Inr [up_sample 7 1])
                      (DataTransformer None (Some no_dedup)) failing_loader initial_stats)) = 0
   \<and> cycles_completed (stats_after (run_single_cycle 7 (Inr [up_sample 7 1])
                      (DataTransformer None (Some no_dedup)) failing_loader initial_stats)) = 0
   \<and> load_calls (run_single_cycle 7 (Inr [up_sample 7 1])
                      (DataTransformer None (Some no_dedup)) failing_loader initial_stats)
       = [[expected_point 7]]"
proof -
  have t: "transform (DataTransformer None (Some no_dedup)) [up_sample 7 1] = Inr [expected_point 7]"
    by (simp add: eval_defs up_sample_def no_dedup_def expected_point_def)
  have n: "[expected_point 7] \<noteq> []" by simp
  have l: "failing_loader [expected_point 7] = Inr False" by (simp add: failing_loader_def)
  from load_failure_branch[where load_data = failing_loader and now = 7
      and stats = initial_stats, OF t n l] t n l
  show ?thesis by (simp add: initial_stats_def)
qed

text \<open>
  C4. When the extractor returns the empty sequence the cycle returns success,
  \<open>cycles_completed\<close> grows by one, \<open>cycles_failed\<close> and \<open>total_data_points\<close> are
  unchanged, and the loader is not called.
\<close>

theorem empty_extraction_is_successful_cycle:
  "succeeded (run_single_cycle now (Inr []) self load_data stats)
   \<and> cycles_completed (stats_after (run_single_cycle now (Inr []) self load_data stats))
       = cycles_completed stats + 1
   \<and> cycles_failed (stats_after (run_single_cycle now (Inr []) self load_data stats))
       = cycles_failed stats
   \<and> total_data_points (stats_after (run_single_cycle now (Inr []) self load_data stats))
       = total_data_points stats
   \<and> load_calls (run_single_cycle now (Inr []) self load_data stats) = []"
  by (simp add: run_single_cycle_def cycle_empty_def)

text \<open>
  C5. Range validation should drop an \<open>up\<close> sample with value \<open>2\<close> and keep one with
  value \<open>1\<close>. The step \<open>_validate_value_ranges\<close> does so. Run through \<open>transform\<close> with the
  default configuration, in which range validation is enabled, the test sample with value
  \<open>2\<close> is dropped, and the one with value \<open>1\<close> is lost as well: \<open>drop_duplicates\<close> raises
  on its label dict before range validation is reached (see C7).
\<close>

theorem range_validation_default_config:
  "validate_value_ranges [up_sample t 2] = Inr []
   \<and> validate_value_ranges [up_sample t 1] = Inr [up_sample t 1]
   \<and> transform (DataTransformer None None) [up_sample t 2] = Inr []
   \<and> transform (DataTransformer None None) [up_sample t 1] = Inr []"
  by (simp add: eval_defs up_sample_def)

text \<open>
  The step on its own, for every frame on which it returns: it keeps a row of metric \<open>up\<close>
  exactly when its value is \<open>0\<close> or \<open>1\<close>, a row of the rate, latency-quantile or error-rate
  metric exactly when its value is a number \<open>\<ge> 0\<close>, and every row of a metric without a
  rule, whatever its value. It returns on every frame whose value column holds no \<open>None\<close>.
\<close>

lemma validate_value_ranges_rules:
  "(\<forall>df'. validate_value_ranges df = Inr df' \<longrightarrow>
       (\<forall>r\<in>set df. metric_name r = ''up'' \<longrightarrow>
          (r \<in> set df') = (sample_value r = Num 0 \<or> sample_value r = Num 1))
     \<and> (\<forall>r\<in>set df. metric_name r \<in> {rate_query, quantile_query, error_rate_query} \<longrightarrow>
          (r \<in> set df') = (\<exists>v. sample_value r = Num v \<and> 0 \<le> v))
     \<and> (\<forall>r\<in>set df. metric_name r \<notin> {''up'', rate_query, quantile_query, error_rate_query} \<longrightarrow>
          r \<in> set df'))
   \<and> ((\<forall>r\<in>set df. sample_value r \<noteq> PyNone) \<longrightarrow> (\<exists>df'. validate_value_ranges df = Inr df'))"
proof (intro conjI allI impI)
  fix df'
  assume "validate_value_ranges df = Inr df'"
  then have df': "df' = filter in_range df" by (rule validate_value_ranges_filter)
  show "\<forall>r\<in>set df. metric_name r = ''up'' \<longrightarrow>
          (r \<in> set df') = (sample_value r = Num 0 \<or> sample_value r = Num 1)"
    unfolding df' by (auto simp: in_range_iff rate_query_def quantile_query_def error_rate_query_def)
  show "\<forall>r\<in>set df. metric_name r \<in> {rate_query, quantile_query, error_rate_query} \<longrightarrow>
          (r \<in> set df') = (\<exists>v. sample_value r = Num v \<and> 0 \<le> v)"
    unfolding df' by (auto simp: in_range_iff rate_query_def quantile_query_def error_rate_query_def)
  show "\<forall>r\<in>set df. metric_name r \<notin> {''up'', rate_query, quantile_query, error_rate_query} \<longrightarrow>
          r \<in> set df'"
    unfolding df' by (auto simp: in_range_iff)
next
  assume "\<forall>r\<in>set df. sample_value r \<noteq> PyNone"
  then show "\<exists>df'. validate_value_ranges df = Inr df'" by (rule validate_value_ranges_total)
qed



text \<open>
  C7. The end-to-end scenario of the spec, run on the code with its default
  configuration: the single \<open>up\<close> sample with value \<open>1.0\<close> and labels \<open>job\<close> and
  \<open>instance\<close> yields no StoragePoint, because \<open>drop_duplicates\<close> raises on the label
  dict and \<open>transform\<close> answers every exception with the empty list.
\<close>

theorem end_to_end_default_config:
  "transform (DataTransformer None None) [up_sample t 1] = Inr []"
  by (simp add: eval_defs up_sample_def)

text \<open>With deduplication switched off the same sample gives the point the spec describes.\<close>

lemma end_to_end_without_dedup:
  "transform (DataTransformer None (Some no_dedup)) [up_sample t 1] =
     Inr [\<lparr>measurement = ''health_metrics'',
           tags = [''service'' \<mapsto> ''test-app'', ''instance'' \<mapsto> ''localhost:8080'',
                   ''metric_type'' \<mapsto> ''up''],
           point_fields = [''value'' \<mapsto> Num 1],
           point_timestamp = Some t\<rparr>]"
  by (simp add: eval_defs up_sample_def no_dedup_def)

text \<open>
  C8, as amended. For a pipeline that has run at most \<open>10^15\<close> cycles,
  \<open>get_health_status\<close> reports \<open>monitoring_disabled\<close> when monitoring is disabled;
  otherwise \<open>healthy\<close> when no cycle has run, and else by the share of successful cycles
  among all cycles: \<open>critical\<close> below 50 percent, \<open>warning\<close> from 50 to below 80 percent,
  \<open>healthy\<close> from 80 percent on. Within that bound the rounding of the success rate
  never carries it across a threshold.
\<close>

theorem health_classification:
  assumes "cycles_completed stats + cycles_failed stats \<le> 10 ^ 15"
  shows "status (get_health_status monitoring now running stats) =
     (if \<not> cfg_get (enable_metrics monitoring) then ''monitoring_disabled''
      else if cycles_completed stats + cycles_failed stats = 0 then ''healthy''
      else if 100 * cycles_completed stats < 50 * (cycles_completed stats + cycles_failed stats)
        then ''critical''
      else if 100 * cycles_completed stats < 80 * (cycles_completed stats + cycles_failed stats)
        then ''warning''
      else ''healthy'')"
proof (cases "cfg_get (enable_metrics monitoring)")
  case False
  then show ?thesis by (simp add: get_health_status_def)
next
  case on: True
  let ?c = "cycles_completed stats"
  let ?t = "cycles_completed stats + cycles_failed stats"
  let ?st = "get_statistics running stats"
  have st: "status (get_health_status monitoring now running stats) =
              (if total_cycles ?st > 0 then
                 (if success_rate ?st < 50 then ''critical''
                  else if success_rate ?st < 80 then ''warning''
                  else ''healthy'')
               else ''healthy'')"
    using on by (simp add: get_health_status_def Let_def)
  show ?thesis
  proof (cases "0 < ?t")
    case False
    then show ?thesis
      unfolding st total_cycles_get_statistics using on by simp
  next
    case True
    have le: "?c \<le> ?t" by simp
    have a: "(success_rate ?st < 50) = (100 * ?c < 50 * ?t)"
    proof (cases "2 * ?c < ?t")
      case True
      with float_rate_lt(1)[OF \<open>0 < ?t\<close> assms] show ?thesis
        by (simp add: success_rate_float[OF \<open>0 < ?t\<close>])
    next
      case False
      then have "?t \<le> 2 * ?c" by simp
      from float_rate_ge(1)[OF \<open>0 < ?t\<close> le this] False show ?thesis
        by (simp add: success_rate_float[OF \<open>0 < ?t\<close>])
    qed
    have b: "(success_rate ?st < 80) = (100 * ?c < 80 * ?t)"
    proof (cases "5 * ?c < 4 * ?t")
      case True
      with float_rate_lt(2)[OF \<open>0 < ?t\<close> assms] show ?thesis
        by (simp add: success_rate_float[OF \<open>0 < ?t\<close>])
    next
      case False
      then have "4 * ?t \<le> 5 * ?c" by simp
      from float_rate_ge(2)[OF \<open>0 < ?t\<close> le this] False show ?thesis
        by (simp add: success_rate_float[OF \<open>0 < ?t\<close>])
    qed
    have t: "?t \<noteq> 0" using True by simp
    show ?thesis
      unfolding st total_cycles_get_statistics a b
      using on True t by (simp only: if_True if_False not_True_eq_False)
  qed
qed

text \<open>The examples of the spec (9, 6 and 3 successes in 10 cycles), the two thresholds
  themselves, a fresh pipeline, and monitoring disabled.\<close>

theorem health_classification_witness:
  "cycles_completed (initial_stats\<lparr>cycles_completed := 9, cycles_failed := 1\<rparr>)
     + cycles_failed (initial_stats\<lparr>cycles_completed := 9, cycles_failed := 1\<rparr>) \<le> 10 ^ 15
   \<and> status (get_health_status \<lparr>enable_metrics = None, health_check_interval = None\<rparr> 100 True
      (initial_stats\<lparr>cycles_completed := 9, cycles_failed := 1\<rparr>)) = ''healthy''
   \<and> status (get_health_status \<lparr>enable_metrics = None, health_check_interval = None\<rparr> 100 True
      (initial_stats\<lparr>cycles_completed := 6, cycles_failed := 4\<rparr>)) = ''warning''
   \<and> status (get_health_status \<lparr>enable_metrics = None, health_check_interval = None\<rparr> 100 True
      (initial_stats\<lparr>cycles_completed := 3, cycles_failed := 7\<rparr>)) = ''critical''
   \<and> status (get_health_status \<lparr>enable_metrics = None, health_check_interval = None\<rparr> 100 True
      (initial_stats\<lparr>cycles_completed := 4, cycles_failed := 1\<rparr>)) = ''healthy''
   \<and> status (get_health_status \<lparr>enable_metrics = None, health_check_interval = None\<rparr> 100 True
      (initial_stats\<lparr>cycles_completed := 1, cycles_failed := 1\<rparr>)) = ''warning''
   \<and> status (get_health_status \<lparr>enable_metrics = None, health_check_interval = None\<rparr> 100 True
      initial_stats) = ''healthy''
   \<and> status (get_health_status \<lparr>enable_metrics = Some False, health_check_interval = None\<rparr> 100 True
      (initial_stats\<lparr>cycles_completed := 3, cycles_failed := 7\<rparr>)) = ''monitoring_disabled''"
  by (simp add: health_classification cfg_get_def initial_stats_def)

text \<open>
  C8 as stated fails without the bound. After \<open>10^16\<close> cycles of which
  \<open>7999999999999999\<close> succeeded the share is below 80 percent, yet the quotient rounds to
  a double whose product with \<open>100\<close> rounds to \<open>80.0\<close>, and the status is \<open>healthy\<close>.
\<close>

theorem health_classification_counterexample:
  "100 * (7999999999999999 :: nat) < 80 * (7999999999999999 + 2000000000000001)
   \<and> status (get_health_status \<lparr>enable_metrics = None, health_check_interval = None\<rparr> 100 True
        (initial_stats\<lparr>cycles_completed := 7999999999999999,
                        cycles_failed := 2000000000000001\<rparr>)) = ''healthy''"
proof -
  define q :: real where "q = 7999999999999999 / 10000000000000000"
  have fq: "binary64 q = 7205759403792793 / 2 ^ 53"
  proof -
    have "binary64 q = of_int (round_half_even (q * 2 ^ (1 + 52))) / 2 ^ (1 + 52)"
      by (rule binary64_up) (simp_all add: q_def)
    moreover have "round_half_even (q * 2 ^ (1 + 52)) = 7205759403792793"
      by (rule round_half_even_eq) (simp_all add: q_def)
    ultimately show ?thesis by simp
  qed
  define y :: real where "y = binary64 q * 100"
  have fy: "binary64 y = 80"
  proof -
    have "binary64 y = of_int (round_half_even (y * 2 ^ 52 / 2 ^ 6)) * 2 ^ 6 / 2 ^ 52"
      by (rule binary64_down) (simp_all add: y_def fq)
    moreover have "round_half_even (y * 2 ^ 52 / 2 ^ 6) = 5629499534213120"
      by (rule round_half_even_eq) (simp_all add: y_def fq)
    ultimately show ?thesis by simp
  qed
  have "success_rate (get_statistics True
          (initial_stats\<lparr>cycles_completed := 7999999999999999,
                          cycles_failed := 2000000000000001\<rparr>)) = binary64 y"
    by (simp add: get_statistics_def Let_def initial_stats_def y_def q_def)
  then show ?thesis
    by (simp add: get_health_status_def Let_def cfg_get_def fy total_cycles_get_statistics
        initial_stats_def)
qed

text \<open>
  C10. When a step of \<open>_clean_data\<close> raises, the exception leaves the \<open>try\<close> block of
  \<open>transform\<close> and \<open>transform\<close> returns the empty list: the whole batch is lost, also the
  rows that did nothing wrong.
\<close>

theorem cleaning_exception_discards_batch:
  assumes "clean_data self (DataFrame raw_data) = Inl e"
  shows "transform_try self raw_data = Inl e \<and> transform self raw_data = Inr []"
  using assms by (simp add: transform_def transform_try_def)

text \<open>An instance: an unlabelled sample alone gives a point; next to a sample with a
  label dict it is lost with the batch.\<close>

theorem cleaning_exception_discards_batch_witness:
  "clean_data (DataTransformer None None) (DataFrame [unlabelled_sample 7 1, up_sample 8 1])
     = Inl TypeError
   \<and> transform_try (DataTransformer None None) [unlabelled_sample 7 1, up_sample 8 1]
     = Inl TypeError
   \<and> transform (DataTransformer None None) [unlabelled_sample 7 1, up_sample 8 1] = Inr []
   \<and> transform (DataTransformer None None) [unlabelled_sample 7 1] \<noteq> Inr []"
proof -
  have h: "clean_data (DataTransformer None None)
             (DataFrame [unlabelled_sample 7 1, up_sample 8 1]) = Inl TypeError"
    by (simp add: eval_defs up_sample_def unlabelled_sample_def)
  have n: "transform (DataTransformer None None) [unlabelled_sample 7 1] \<noteq> Inr []"
    by (simp add: eval_defs up_sample_def unlabelled_sample_def key_of_def)
  from cleaning_exception_discards_batch[OF h] h n show ?thesis by simp
qed

end
